theory Spec2Isabelle
  imports Main
begin

section \<open>JavaScript values\<close>

text \<open>
  The engine passes untyped values around: a step's error, a thrown value, a variable of
  the context. The fragment of JavaScript values modelled here: \<open>undefined\<close>, \<open>null\<close>,
  booleans, strings, the objects \<open>new Error(m)\<close> and \<open>new TypeError(m)\<close> (by their message),
  plain objects (prototype \<open>Object.prototype\<close>, with the listed own data properties:
  string keys, values of the fragment) and arrays of such values. Numbers, boxed
  primitives, functions, getters and symbols are outside the fragment.
\<close>

datatype jsval =
    Undefined
  | Null
  | Bool bool
  | Str string
  | ErrorObj string
  | TypeErrorObj string
  | Obj "(string \<times> jsval) list"
  | Arr "jsval list"

text \<open>
  How a call ends: it returns (a promise resolves) or it throws (a promise rejects).
  Under \<open>await\<close> the two pairs coincide. Every call is taken to end: an action whose
  promise never settles, which blocks the run for good, is outside the model.
\<close>

datatype 'a completion = Returns 'a | Throws jsval

fun is_returns :: "'a completion \<Rightarrow> bool" where
  "is_returns (Returns x) = True"
| "is_returns (Throws e) = False"

text \<open>Decimal digits of a non-negative integer, as a template literal prints it.\<close>

definition digit_char :: "nat \<Rightarrow> char" where
  "digit_char d = ''0123456789'' ! d"

fun string_of_nat :: "nat \<Rightarrow> string" where
  "string_of_nat n =
     (if n < 10 then [digit_char n]
      else string_of_nat (n div 10) @ [digit_char (n mod 10)])"

declare string_of_nat.simps [simp del]

text \<open>Truthiness, as \<open>||\<close> tests it.\<close>

fun truthy :: "jsval \<Rightarrow> bool" where
  "truthy Undefined = False"
| "truthy Null = False"
| "truthy (Bool b) = b"
| "truthy (Str s) = (s \<noteq> [])"
| "truthy (ErrorObj m) = True"
| "truthy (TypeErrorObj m) = True"
| "truthy (Obj ps) = True"
| "truthy (Arr xs) = True"

text \<open>An own property of an object: of two entries with one key, the later one counts.\<close>

definition own_property :: "(string \<times> jsval) list \<Rightarrow> string \<Rightarrow> jsval option" where
  "own_property ps k = map_of (rev ps) k"

text \<open>\<open>e?.message\<close>: \<open>undefined\<close> on a nullish value and on a value without the property.\<close>

fun optional_message :: "jsval \<Rightarrow> jsval" where
  "optional_message (ErrorObj m) = Str m"
| "optional_message (TypeErrorObj m) = Str m"
| "optional_message (Obj ps) = (case own_property ps ''message'' of None \<Rightarrow> Undefined | Some v \<Rightarrow> v)"
| "optional_message v = Undefined"

text \<open>
  What \<open>String(e)\<close> throws for an object it cannot convert: an own \<open>toString\<close> that is
  not callable hides \<open>Object.prototype.toString\<close>, and \<open>valueOf\<close> gives no primitive. The
  wording of the message is V8's.
\<close>

definition cannot_convert :: jsval where
  "cannot_convert = TypeErrorObj ''Cannot convert object to primitive value''"

text \<open>
  \<open>String(e)\<close>. An array is joined with commas, \<open>undefined\<close> and \<open>null\<close> elements printing
  as nothing; the first element that cannot be converted throws.
\<close>

fun String :: "jsval \<Rightarrow> string completion"
  and join_elements :: "jsval list \<Rightarrow> string completion" where
  "String Undefined = Returns ''undefined''"
| "String Null = Returns ''null''"
| "String (Bool b) = Returns (if b then ''true'' else ''false'')"
| "String (Str s) = Returns s"
| "String (ErrorObj m) = Returns (if m = [] then ''Error'' else ''Error: '' @ m)"
| "String (TypeErrorObj m) = Returns (if m = [] then ''TypeError'' else ''TypeError: '' @ m)"
| "String (Obj ps) =
     (if own_property ps ''toString'' = None then Returns ''[object Object]''
      else Throws cannot_convert)"
| "String (Arr xs) = join_elements xs"
| "join_elements [] = Returns []"
| "join_elements (x # xs) =
     (case (if x = Undefined \<or> x = Null then Returns [] else String x) of
        Throws e \<Rightarrow> Throws e
      | Returns s \<Rightarrow>
          (if xs = [] then Returns s
           else (case join_elements xs of
                   Throws e \<Rightarrow> Throws e
                 | Returns r \<Rightarrow> Returns (s @ '','' @ r))))"

section \<open>Result\<close>

datatype ('t, 'e) Result = Ok 't | Err 'e

text \<open>
  Modelled from the spec: the constructors \<open>ok\<close> and \<open>err\<close> of util/result, of which only
  the declarations \<open>ok: (value: T) => Ok<T>\<close> and \<open>err: (error: E) => Err<E>\<close> are at hand;
  the spec's Result is the tagged union \<open>{ ok: true, value } | { ok: false, error }\<close>.
\<close>

definition ok :: "'t \<Rightarrow> ('t, 'e) Result" where
  "ok v = Ok v"

definition err :: "'e \<Rightarrow> ('t, 'e) Result" where
  "err e = Err e"

text \<open>The field \<open>r.ok\<close>.\<close>

fun is_ok :: "('t, 'e) Result \<Rightarrow> bool" where
  "is_ok (Ok v) = True"
| "is_ok (Err e) = False"

section \<open>Plans\<close>

text \<open>domain/ids: branded strings; the casts are the identity.\<close>

type_synonym StepId = string
type_synonym PlanId = string

definition asPlanId :: "string \<Rightarrow> PlanId" where
  "asPlanId s = s"

definition asStepId :: "string \<Rightarrow> StepId" where
  "asStepId s = s"

record StepContext =
  vars :: "string \<Rightarrow> jsval option"

text \<open>
  An action is given the shared context, may mutate it, and settles with a Result or
  throws: it maps the context to its completion and the context it leaves behind.
  The gating predicate reads the context and answers, or throws. The fields of a step
  are \<open>id\<close>, \<open>name\<close>, \<open>action\<close> and \<open>when\<close> in the source.
\<close>

type_synonym Action = "StepContext \<Rightarrow> (jsval, jsval) Result completion \<times> StepContext"
type_synonym Predicate = "StepContext \<Rightarrow> bool completion"

record Step =
  step_id :: StepId
  step_name :: string
  step_action :: Action
  step_when :: "Predicate option"

text \<open>A step as \<open>makePlan\<close> receives it: the id may be missing.\<close>

record StepSpec =
  spec_id :: "StepId option"
  spec_name :: string
  spec_action :: Action
  spec_when :: "Predicate option"

record Plan =
  plan_id :: PlanId
  plan_name :: string
  plan_steps :: "Step list"

text \<open>\<open>a ?? b\<close>, where \<open>None\<close> is a nullish \<open>a\<close> (an absent property, \<open>undefined\<close> or \<open>null\<close>).\<close>

fun nullish_coalesce :: "'a option \<Rightarrow> 'a \<Rightarrow> 'a" where
  "nullish_coalesce None d = d"
| "nullish_coalesce (Some v) d = v"

definition normalize_step :: "string \<Rightarrow> nat \<Rightarrow> StepSpec \<Rightarrow> Step" where
  "normalize_step name i s =
     \<lparr> step_id = nullish_coalesce (spec_id s) (asStepId (name @ ''-s'' @ string_of_nat (i + 1))),
       step_name = spec_name s,
       step_action = spec_action s,
       step_when = spec_when s \<rparr>"

definition makePlan :: "string \<Rightarrow> StepSpec list \<Rightarrow> Plan" where
  "makePlan name steps =
     (let normalized = map (\<lambda>(i, s). normalize_step name i s) (enumerate 0 steps)
      in \<lparr> plan_id = asPlanId name, plan_name = name, plan_steps = normalized \<rparr>)"

section \<open>The plan runner\<close>

record SummaryEntry =
  entry_id :: StepId
  entry_ok :: bool

record RunValue =
  steps :: "SummaryEntry list"

type_synonym RunResult = "(RunValue, jsval) Result"

text \<open>
  An attribute of a telemetry call: a value of the run, or a count (the length of an
  array, kept as the natural number it is).
\<close>

datatype attr = Value jsval | Count nat

type_synonym attrs = "(string \<times> attr) list"

text \<open>
  What an observer of a run sees, in order: the telemetry calls made and the actions
  invoked (by the 0-based position of their step in the plan).
\<close>

datatype event =
    TelemetryInfo string attrs
  | TelemetryError string attrs
  | ActionInvoked nat

text \<open>
  The locals of \<open>runPlan\<close>: the shared context and the summary; \<open>trace\<close> records the
  invocations, as a call-count spy would.
\<close>

record run_state =
  ctx :: StepContext
  summary :: "SummaryEntry list"
  trace :: "event list"

text \<open>The loop's guard \<open>s.when && !s.when(ctx)\<close>.\<close>

definition gated_off :: "Step \<Rightarrow> StepContext \<Rightarrow> bool completion" where
  "gated_off s c =
     (case step_when s of
        None \<Rightarrow> Returns False
      | Some w \<Rightarrow> (case w c of Returns b \<Rightarrow> Returns (\<not> b) | Throws e \<Rightarrow> Throws e))"

definition push_entry :: "StepId \<Rightarrow> bool \<Rightarrow> run_state \<Rightarrow> run_state" where
  "push_entry i b st = st\<lparr>summary := summary st @ [\<lparr>entry_id = i, entry_ok = b\<rparr>]\<rparr>"

definition step_failed :: "Step \<Rightarrow> jsval \<Rightarrow> jsval" where
  "step_failed s e = Obj [(''message'', Str (''Step failed: '' @ step_name s)), (''cause'', e)]"

text \<open>
  \<open>runSteps i ss st\<close> is \<open>runPlan\<close> from the head of its loop on, with the steps \<open>ss\<close> left
  to visit, the first of them at position \<open>i\<close>, in state \<open>st\<close>. It yields what \<open>runPlan\<close>
  settles with, and the state at that moment.
\<close>

fun runSteps :: "nat \<Rightarrow> Step list \<Rightarrow> run_state \<Rightarrow> RunResult completion \<times> run_state" where
  "runSteps i [] st = (Returns (ok \<lparr>steps = summary st\<rparr>), st)"
| "runSteps i (s # ss) st =
     (case gated_off s (ctx st) of
        Throws e \<Rightarrow> (Throws e, st)
      | Returns True \<Rightarrow> runSteps (Suc i) ss (push_entry (step_id s) True st)
      | Returns False \<Rightarrow>
          (case step_action s (ctx st) of
             (Throws e, c') \<Rightarrow> (Throws e, st\<lparr>ctx := c', trace := trace st @ [ActionInvoked i]\<rparr>)
           | (Returns r, c') \<Rightarrow>
               (let st' = push_entry (step_id s) (is_ok r)
                            (st\<lparr>ctx := c', trace := trace st @ [ActionInvoked i]\<rparr>)
                in case r of
                     Err e \<Rightarrow> (Returns (err (step_failed s e)), st')
                   | Ok v \<Rightarrow> runSteps (Suc i) ss st')))"

definition initial_state :: run_state where
  "initial_state = \<lparr>ctx = \<lparr>vars = Map.empty\<rparr>, summary = [], trace = []\<rparr>"

definition runPlan :: "Plan \<Rightarrow> RunResult completion \<times> run_state" where
  "runPlan plan = runSteps 0 (plan_steps plan) initial_state"

section \<open>The orchestrator\<close>

text \<open>
  spi/telemetry: a telemetry object has a state of its own (\<open>'t\<close>); a call updates it
  and returns, or throws. The orchestrator calls \<open>info\<close> and \<open>error\<close> only;
  \<open>startSpan\<close>, which it never calls, is left out.
\<close>

record 't Telemetry =
  info :: "string \<Rightarrow> attrs \<Rightarrow> 't \<Rightarrow> unit completion \<times> 't"
  warn :: "string \<Rightarrow> attrs \<Rightarrow> 't \<Rightarrow> unit completion \<times> 't"
  error :: "string \<Rightarrow> attrs \<Rightarrow> 't \<Rightarrow> unit completion \<times> 't"

record 't Orchestrator =
  telemetry :: "'t Telemetry option"

text \<open>Outside the orchestrator: the telemetry object's state and the events so far.\<close>

record 't world =
  tel :: 't
  events :: "event list"

text \<open>
  \<open>this.telemetry?.info(msg, attrs)\<close> and \<open>this.telemetry?.error(msg, attrs)\<close>. Without a
  telemetry object nothing happens: the arguments are not even evaluated. With one, the
  attributes are evaluated first, which may throw, and then the call is made.
\<close>

definition telemetry_info ::
  "'t Orchestrator \<Rightarrow> string \<Rightarrow> attrs completion \<Rightarrow> 't world \<Rightarrow> unit completion \<times> 't world" where
  "telemetry_info this msg args w =
     (case telemetry this of
        None \<Rightarrow> (Returns (), w)
      | Some t \<Rightarrow>
          (case args of
             Throws e \<Rightarrow> (Throws e, w)
           | Returns attrs \<Rightarrow>
               (case info t msg attrs (tel w) of
                  (out, t') \<Rightarrow> (out, \<lparr>tel = t', events = events w @ [TelemetryInfo msg attrs]\<rparr>))))"

definition telemetry_error ::
  "'t Orchestrator \<Rightarrow> string \<Rightarrow> attrs completion \<Rightarrow> 't world \<Rightarrow> unit completion \<times> 't world" where
  "telemetry_error this msg args w =
     (case telemetry this of
        None \<Rightarrow> (Returns (), w)
      | Some t \<Rightarrow>
          (case args of
             Throws e \<Rightarrow> (Throws e, w)
           | Returns attrs \<Rightarrow>
               (case error t msg attrs (tel w) of
                  (out, t') \<Rightarrow> (out, \<lparr>tel = t', events = events w @ [TelemetryError msg attrs]\<rparr>))))"

text \<open>\<open>e?.message || String(e)\<close>: the conversion is made only for a falsy message.\<close>

definition message_or_string :: "jsval \<Rightarrow> jsval completion" where
  "message_or_string e =
     (if truthy (optional_message e) then Returns (optional_message e)
      else (case String e of Throws x \<Rightarrow> Throws x | Returns s \<Rightarrow> Returns (Str s)))"

text \<open>The attributes \<open>{ error: e?.message || String(e) }\<close> of the \<open>catch\<close> block.\<close>

definition exception_attrs :: "jsval \<Rightarrow> attrs completion" where
  "exception_attrs e =
     (case message_or_string e of
        Throws x \<Rightarrow> Throws x
      | Returns m \<Rightarrow> Returns [(''error'', Value m)])"

text \<open>The \<open>catch\<close> block of \<open>run\<close>.\<close>

definition run_catch :: "'t Orchestrator \<Rightarrow> jsval \<Rightarrow> 't world \<Rightarrow> RunResult completion \<times> 't world" where
  "run_catch this e w =
     (case telemetry_error this ''orchestrator.run.exception'' (exception_attrs e) w of
        (Throws e', w') \<Rightarrow> (Throws e', w')
      | (Returns u, w') \<Rightarrow> (Returns (err e), w'))"

text \<open>
  \<open>Orchestrator.run\<close>, started with the telemetry object in state \<open>t0\<close>: what its promise
  settles with, and the world it leaves.
\<close>

definition run :: "'t Orchestrator \<Rightarrow> Plan \<Rightarrow> 't \<Rightarrow> RunResult completion \<times> 't world" where
  "run this plan t0 =
     (case telemetry_info this ''orchestrator.run.start''
             (Returns [(''planId'', Value (Str (plan_id plan))), (''name'', Value (Str (plan_name plan)))])
             \<lparr>tel = t0, events = []\<rparr> of
        (Throws e, w) \<Rightarrow> run_catch this e w
      | (Returns u, w) \<Rightarrow>
          (case runPlan plan of
             (out, st) \<Rightarrow>
               (let w1 = w\<lparr>events := events w @ trace st\<rparr>
                in case out of
                     Throws e \<Rightarrow> run_catch this e w1
                   | Returns (Err e) \<Rightarrow>
                       (case telemetry_error this ''orchestrator.run.error''
                               (Returns [(''error'', Value e)]) w1 of
                          (Throws e', w2) \<Rightarrow> run_catch this e' w2
                        | (Returns u', w2) \<Rightarrow> (Returns (Err e), w2))
                   | Returns (Ok v) \<Rightarrow>
                       (case telemetry_info this ''orchestrator.run.ok''
                               (Returns [(''steps'', Count (length (steps v)))]) w1 of
                          (Throws e', w2) \<Rightarrow> run_catch this e' w2
                        | (Returns u', w2) \<Rightarrow> (Returns (ok v), w2)))))"

section \<open>Notions the properties are stated with\<close>

text \<open>
  \<open>reaches plan n st\<close>: the loop of \<open>runPlan\<close> gets past the first \<open>n\<close> steps of the plan
  (each of them skipped, or run with a success Result) and is then in state \<open>st\<close>.
\<close>

definition reaches :: "Plan \<Rightarrow> nat \<Rightarrow> run_state \<Rightarrow> bool" where
  "reaches plan n st \<longleftrightarrow>
     n \<le> length (plan_steps plan) \<and>
     runSteps 0 (take n (plan_steps plan)) initial_state =
       (Returns (ok \<lparr>steps = summary st\<rparr>), st)"

text \<open>
  \<open>all_succeed ss c\<close>: run in order from the context \<open>c\<close>, no step of \<open>ss\<close> is gated off
  and the action of each returns a success Result.
\<close>

fun all_succeed :: "Step list \<Rightarrow> StepContext \<Rightarrow> bool" where
  "all_succeed [] c = True"
| "all_succeed (s # ss) c =
     (gated_off s c = Returns False \<and>
      (case step_action s c of
         (Returns (Ok v), c') \<Rightarrow> all_succeed ss c'
       | (Returns (Err e), c') \<Rightarrow> False
       | (Throws e, c') \<Rightarrow> False))"

text \<open>A telemetry object whose \<open>info\<close> and \<open>error\<close> never throw.\<close>

definition returns_normally :: "'t Telemetry \<Rightarrow> bool" where
  "returns_normally t \<longleftrightarrow>
     (\<forall>msg attrs s. fst (info t msg attrs s) = Returns ()) \<and>
     (\<forall>msg attrs s. fst (error t msg attrs s) = Returns ())"

text \<open>
  \<open>exception_message_evaluates plan\<close>: if the runner throws a value \<open>e\<close> on the plan, then
  evaluating \<open>e?.message || String(e)\<close> returns (the conversion of \<open>e\<close> does not throw).
\<close>

definition exception_message_evaluates :: "Plan \<Rightarrow> bool" where
  "exception_message_evaluates plan =
     (case fst (runPlan plan) of
        Returns r \<Rightarrow> True
      | Throws e \<Rightarrow> is_returns (message_or_string e))"

text \<open>
  The telemetry events of a run: the opening one, and the closing one by how the runner
  ended (none when the attributes of \<open>orchestrator.run.exception\<close> cannot be evaluated).
\<close>

definition start_event :: "Plan \<Rightarrow> event" where
  "start_event plan =
     TelemetryInfo ''orchestrator.run.start''
       [(''planId'', Value (Str (plan_id plan))), (''name'', Value (Str (plan_name plan)))]"

fun closing_events :: "RunResult completion \<Rightarrow> event list" where
  "closing_events (Returns (Ok v)) =
     [TelemetryInfo ''orchestrator.run.ok'' [(''steps'', Count (length (steps v)))]]"
| "closing_events (Returns (Err e)) =
     [TelemetryError ''orchestrator.run.error'' [(''error'', Value e)]]"
| "closing_events (Throws e) =
     (case message_or_string e of
        Returns m \<Rightarrow> [TelemetryError ''orchestrator.run.exception'' [(''error'', Value m)]]
      | Throws x \<Rightarrow> [])"

fun is_closing :: "event \<Rightarrow> bool" where
  "is_closing (TelemetryInfo msg attrs) = (msg = ''orchestrator.run.ok'')"
| "is_closing (TelemetryError msg attrs) =
     (msg = ''orchestrator.run.error'' \<or> msg = ''orchestrator.run.exception'')"
| "is_closing (ActionInvoked i) = False"

fun is_invocation :: "event \<Rightarrow> bool" where
  "is_invocation (ActionInvoked i) = True"
| "is_invocation (TelemetryInfo msg attrs) = False"
| "is_invocation (TelemetryError msg attrs) = False"

text \<open>Reading a decimal numeral back.\<close>

definition digit_val :: "char \<Rightarrow> nat" where
  "digit_val c = of_char c - 48"

definition nat_of_string :: "string \<Rightarrow> nat" where
  "nat_of_string s = foldl (\<lambda>acc c. 10 * acc + digit_val c) 0 s"

section \<open>Example plans and collaborators\<close>

text \<open>The actions of the test suite: \<open>async () => ({ ok: true, value: {} })\<close> and its kin.\<close>

definition succeed :: Action where
  "succeed c = (Returns (Ok (Obj [])), c)"

definition fail_with :: "jsval \<Rightarrow> Action" where
  "fail_with e c = (Returns (Err e), c)"

definition throw_value :: "jsval \<Rightarrow> Action" where
  "throw_value e c = (Throws e, c)"

text \<open>An action that writes a variable of the shared context.\<close>

definition set_var :: "string \<Rightarrow> jsval \<Rightarrow> Action" where
  "set_var k v c = (Returns (Ok (Obj [])), c\<lparr>vars := (vars c)(k \<mapsto> v)\<rparr>)"

text \<open>The predicate \<open>() => false\<close>, and one that asks for a variable to be set.\<close>

definition never :: Predicate where
  "never c = Returns False"

definition has_var :: "string \<Rightarrow> Predicate" where
  "has_var k c = Returns (vars c k \<noteq> None)"

definition plan_p_a_b :: Plan where
  "plan_p_a_b = makePlan ''p''
     [\<lparr>spec_id = None, spec_name = ''a'', spec_action = succeed, spec_when = None\<rparr>,
      \<lparr>spec_id = None, spec_name = ''b'', spec_action = succeed, spec_when = None\<rparr>]"

definition plan_fail_first :: Plan where
  "plan_fail_first = makePlan ''p''
     [\<lparr>spec_id = None, spec_name = ''a'', spec_action = fail_with (ErrorObj ''x''), spec_when = None\<rparr>,
      \<lparr>spec_id = None, spec_name = ''b'', spec_action = succeed, spec_when = None\<rparr>]"

definition plan_fail_second :: Plan where
  "plan_fail_second = makePlan ''q''
     [\<lparr>spec_id = None, spec_name = ''a'', spec_action = set_var ''x'' (Bool True), spec_when = None\<rparr>,
      \<lparr>spec_id = Some ''mid'', spec_name = ''b'', spec_action = fail_with (ErrorObj ''x''),
         spec_when = Some (has_var ''x'')\<rparr>,
      \<lparr>spec_id = None, spec_name = ''c'', spec_action = succeed, spec_when = None\<rparr>]"

definition after_first :: run_state where
  "after_first =
     \<lparr>ctx = \<lparr>vars = [''x'' \<mapsto> Bool True]\<rparr>,
      summary = [\<lparr>entry_id = ''q-s1'', entry_ok = True\<rparr>],
      trace = [ActionInvoked 0]\<rparr>"

definition plan_skip_first :: Plan where
  "plan_skip_first = makePlan ''p''
     [\<lparr>spec_id = None, spec_name = ''a'', spec_action = succeed, spec_when = Some never\<rparr>,
      \<lparr>spec_id = None, spec_name = ''b'', spec_action = succeed, spec_when = None\<rparr>]"

definition plan_throw :: "jsval \<Rightarrow> Plan" where
  "plan_throw e = makePlan ''p''
     [\<lparr>spec_id = None, spec_name = ''throw-nonerror'', spec_action = throw_value e, spec_when = None\<rparr>]"

definition demo_steps :: "StepSpec list" where
  "demo_steps =
     [\<lparr>spec_id = None, spec_name = ''hello'', spec_action = succeed, spec_when = None\<rparr>,
      \<lparr>spec_id = Some [], spec_name = ''blank'', spec_action = succeed, spec_when = Some never\<rparr>]"

text \<open>spi/telemetry's \<open>NoopTelemetry\<close>, and the \<open>TelemetryMock\<close> of the tests with its two lists.\<close>

definition NoopTelemetry :: "'t Telemetry" where
  "NoopTelemetry =
     \<lparr>info = (\<lambda>msg attrs s. (Returns (), s)),
      warn = (\<lambda>msg attrs s. (Returns (), s)),
      error = (\<lambda>msg attrs s. (Returns (), s))\<rparr>"

record MockCalls =
  infoCalls :: "(string \<times> attrs) list"
  errorCalls :: "(string \<times> attrs) list"

definition TelemetryMock :: "MockCalls Telemetry" where
  "TelemetryMock =
     \<lparr>info = (\<lambda>msg attrs s. (Returns (), s\<lparr>infoCalls := infoCalls s @ [(msg, attrs)]\<rparr>)),
      warn = (\<lambda>msg attrs s. (Returns (), s)),
      error = (\<lambda>msg attrs s. (Returns (), s\<lparr>errorCalls := errorCalls s @ [(msg, attrs)]\<rparr>))\<rparr>"

definition no_calls :: MockCalls where
  "no_calls = \<lparr>infoCalls = [], errorCalls = []\<rparr>"

text \<open>A telemetry object whose \<open>info\<close>, whose \<open>error\<close>, or both, throw.\<close>

definition FaultyTelemetry :: "bool \<Rightarrow> bool \<Rightarrow> unit Telemetry" where
  "FaultyTelemetry info_throws error_throws =
     \<lparr>info = (\<lambda>msg attrs s.
        (if info_throws then Throws (ErrorObj ''telemetry down'') else Returns (), s)),
      warn = (\<lambda>msg attrs s. (Returns (), s)),
      error = (\<lambda>msg attrs s.
        (if error_throws then Throws (ErrorObj ''telemetry down'') else Returns (), s))\<rparr>"

section \<open>Decimal numerals\<close>

lemma string_of_nat_nonempty: "string_of_nat n \<noteq> []"
  by (subst string_of_nat.simps) simp

lemma digit_val_digit_char: "d < 10 \<Longrightarrow> digit_val (digit_char d) = d"
proof -
  assume "d < 10"
  then consider "d = 0" | "d = 1" | "d = 2" | "d = 3" | "d = 4"
    | "d = 5" | "d = 6" | "d = 7" | "d = 8" | "d = 9"
    by atomize_elim arith
  then show ?thesis
    by cases (simp_all add: digit_val_def digit_char_def)
qed

lemma nat_of_string_of_nat: "nat_of_string (string_of_nat n) = n"
proof (induction n rule: string_of_nat.induct)
  case (1 n)
  show ?case
  proof (cases "n < 10")
    case True
    then show ?thesis
      by (simp add: string_of_nat.simps [of n] nat_of_string_def digit_val_digit_char)
  next
    case False
    with 1 have "nat_of_string (string_of_nat (n div 10)) = n div 10" by simp
    with False show ?thesis
      by (simp add: string_of_nat.simps [of n] nat_of_string_def digit_val_digit_char)
  qed
qed

lemma string_of_nat_inj: "string_of_nat m = string_of_nat n \<Longrightarrow> m = n"
  by (metis nat_of_string_of_nat)

section \<open>Plan construction\<close>

lemma makePlan_steps_length: "length (plan_steps (makePlan name specs)) = length specs"
  by (simp add: makePlan_def)

lemma makePlan_steps_nth:
  "i < length specs \<Longrightarrow> plan_steps (makePlan name specs) ! i = normalize_step name i (specs ! i)"
  by (simp add: makePlan_def nth_enumerate_eq)

lemma makePlan_ids_all_missing:
  "\<forall>s \<in> set specs. spec_id s = None \<Longrightarrow>
   map step_id (plan_steps (makePlan name specs)) =
     map (\<lambda>i. name @ ''-s'' @ string_of_nat (i + 1)) [0..<length specs]"
  by (rule nth_equalityI)
    (simp_all add: makePlan_steps_length makePlan_steps_nth normalize_step_def asStepId_def)

lemma generated_ids_distinct:
  "distinct (map (\<lambda>i. name @ ''-s'' @ string_of_nat (i + 1)) [0..<n])"
  by (auto simp: distinct_map inj_on_def dest: string_of_nat_inj)

lemma demo_plan_steps:
  "plan_steps (makePlan ''demo'' demo_steps) =
     [\<lparr>step_id = ''demo-s1'', step_name = ''hello'', step_action = succeed, step_when = None\<rparr>,
      \<lparr>step_id = [], step_name = ''blank'', step_action = succeed, step_when = Some never\<rparr>]"
  by (simp add: demo_steps_def makePlan_def normalize_step_def enumerate_eq_zip asStepId_def
      string_of_nat.simps digit_char_def upt_rec)

text \<open>
  C7. \<open>makePlan(name, specs)\<close> returns a Plan whose id is \<open>name\<close>, with one step per
  input step in the input order; each copies \<open>name\<close>, \<open>action\<close> and \<open>when\<close>, keeps an id
  that was supplied, and gets the id \<open>{name}-s{index+1}\<close> (1-based) when none was.
\<close>

theorem makePlan_copies:
  "plan_id (makePlan name specs) = name \<and>
   plan_name (makePlan name specs) = name \<and>
   length (plan_steps (makePlan name specs)) = length specs \<and>
   (\<forall>i < length specs.
      step_name (plan_steps (makePlan name specs) ! i) = spec_name (specs ! i) \<and>
      step_action (plan_steps (makePlan name specs) ! i) = spec_action (specs ! i) \<and>
      step_when (plan_steps (makePlan name specs) ! i) = spec_when (specs ! i) \<and>
      step_id (plan_steps (makePlan name specs) ! i) =
        (case spec_id (specs ! i) of
           Some given \<Rightarrow> given
         | None \<Rightarrow> name @ ''-s'' @ string_of_nat (i + 1)))"
proof -
  have "plan_id (makePlan name specs) = name" "plan_name (makePlan name specs) = name"
    by (simp_all add: makePlan_def asPlanId_def)
  then show ?thesis
    by (auto simp: makePlan_steps_nth makePlan_steps_length normalize_step_def asStepId_def
        split: option.splits)
qed

theorem makePlan_copies_witness:
  "plan_id (makePlan ''demo'' demo_steps) = ''demo'' \<and>
   length (plan_steps (makePlan ''demo'' demo_steps)) = 2 \<and>
   step_name (plan_steps (makePlan ''demo'' demo_steps) ! 0) = ''hello'' \<and>
   step_id (plan_steps (makePlan ''demo'' demo_steps) ! 0) = ''demo-s1'' \<and>
   step_when (plan_steps (makePlan ''demo'' demo_steps) ! 1) = Some never \<and>
   step_id (plan_steps (makePlan ''demo'' demo_steps) ! 1) = []"
proof -
  have len: "length demo_steps = 2" by (simp add: demo_steps_def)
  have nth: "demo_steps ! 0 = \<lparr>spec_id = None, spec_name = ''hello'', spec_action = succeed, spec_when = None\<rparr>"
    "demo_steps ! 1 = \<lparr>spec_id = Some [], spec_name = ''blank'', spec_action = succeed, spec_when = Some never\<rparr>"
    by (simp_all add: demo_steps_def)
  have one: "string_of_nat 1 = ''1''"
    by (simp add: string_of_nat.simps digit_char_def)
  from makePlan_copies [of "''demo''" demo_steps] len
  have top: "plan_id (makePlan ''demo'' demo_steps) = ''demo''"
      "length (plan_steps (makePlan ''demo'' demo_steps)) = 2"
    and each: "\<forall>i < 2.
      step_name (plan_steps (makePlan ''demo'' demo_steps) ! i) = spec_name (demo_steps ! i) \<and>
      step_action (plan_steps (makePlan ''demo'' demo_steps) ! i) = spec_action (demo_steps ! i) \<and>
      step_when (plan_steps (makePlan ''demo'' demo_steps) ! i) = spec_when (demo_steps ! i) \<and>
      step_id (plan_steps (makePlan ''demo'' demo_steps) ! i) =
        (case spec_id (demo_steps ! i) of
           Some given \<Rightarrow> given
         | None \<Rightarrow> ''demo'' @ ''-s'' @ string_of_nat (i + 1))"
    by simp_all
  from each [rule_format, of 0] each [rule_format, of 1] top show ?thesis
    using nth one by simp
qed

text \<open>
  C10. \<open>makePlan\<close> generates an id only for a step whose id is nullish: a supplied id is
  kept, the empty string included. A generated id is \<open>{name}-s{index+1}\<close>, a function of
  the plan name and the step's position alone; when every input step lacks an id, the ids
  of the returned Plan are pairwise distinct.
\<close>

theorem makePlan_ids:
  "(\<forall>i < length specs. \<forall>given. spec_id (specs ! i) = Some given \<longrightarrow>
      step_id (plan_steps (makePlan name specs) ! i) = given) \<and>
   (\<forall>i < length specs. spec_id (specs ! i) = Some [] \<longrightarrow>
      step_id (plan_steps (makePlan name specs) ! i) = []) \<and>
   (\<forall>i < length specs. spec_id (specs ! i) = None \<longrightarrow>
      step_id (plan_steps (makePlan name specs) ! i) = name @ ''-s'' @ string_of_nat (i + 1)) \<and>
   ((\<forall>s \<in> set specs. spec_id s = None) \<longrightarrow>
      distinct (map step_id (plan_steps (makePlan name specs))))"
proof -
  have "distinct (map step_id (plan_steps (makePlan name specs)))"
    if "\<forall>s \<in> set specs. spec_id s = None"
    using makePlan_ids_all_missing [OF that, of name] generated_ids_distinct [of name "length specs"]
    by simp
  then show ?thesis
    by (auto simp: makePlan_steps_nth normalize_step_def asStepId_def)
qed

theorem makePlan_ids_witness:
  "spec_id (demo_steps ! 1) = Some [] \<and>
   step_id (plan_steps (makePlan ''demo'' demo_steps) ! 1) = [] \<and>
   spec_id (demo_steps ! 0) = None \<and>
   step_id (plan_steps (makePlan ''demo'' demo_steps) ! 0) = ''demo-s1'' \<and>
   distinct (map step_id (plan_steps (makePlan ''demo'' (take 1 demo_steps @ take 1 demo_steps))))"
proof -
  have len: "length demo_steps = 2" by (simp add: demo_steps_def)
  have nth: "spec_id (demo_steps ! 0) = None" "spec_id (demo_steps ! 1) = Some []"
    by (simp_all add: demo_steps_def)
  have one: "string_of_nat 1 = ''1''"
    by (simp add: string_of_nat.simps digit_char_def)
  have missing: "\<forall>s \<in> set (take 1 demo_steps @ take 1 demo_steps). spec_id s = None"
    by (simp add: demo_steps_def)
  note ids = makePlan_ids [of demo_steps "''demo''"]
  from ids [THEN conjunct1, rule_format, of 1 "[]"] len nth
  have "step_id (plan_steps (makePlan ''demo'' demo_steps) ! 1) = []"
    by simp
  moreover from ids [THEN conjunct2, THEN conjunct2, THEN conjunct1, rule_format, of 0] len nth one
  have "step_id (plan_steps (makePlan ''demo'' demo_steps) ! 0) = ''demo-s1''"
    by simp
  moreover from makePlan_ids [of "take 1 demo_steps @ take 1 demo_steps" "''demo''"] missing
  have "distinct (map step_id (plan_steps (makePlan ''demo'' (take 1 demo_steps @ take 1 demo_steps))))"
    by blast
  ultimately show ?thesis using nth by simp
qed

section \<open>The loop of the runner, step by step\<close>

lemma runSteps_skip:
  "gated_off s (ctx st) = Returns True \<Longrightarrow>
   runSteps i (s # ss) st = runSteps (Suc i) ss (push_entry (step_id s) True st)"
  by simp

lemma runSteps_action_fails:
  "gated_off s (ctx st) = Returns False \<Longrightarrow> step_action s (ctx st) = (Returns (Err e), c') \<Longrightarrow>
   runSteps i (s # ss) st =
     (Returns (Err (step_failed s e)),
      push_entry (step_id s) False (st\<lparr>ctx := c', trace := trace st @ [ActionInvoked i]\<rparr>))"
  by (simp add: err_def)

lemma runSteps_action_ok:
  "gated_off s (ctx st) = Returns False \<Longrightarrow> step_action s (ctx st) = (Returns (Ok v), c') \<Longrightarrow>
   runSteps i (s # ss) st =
     runSteps (Suc i) ss
       (push_entry (step_id s) True (st\<lparr>ctx := c', trace := trace st @ [ActionInvoked i]\<rparr>))"
  by simp

text \<open>A run over \<open>xs @ ys\<close> that gets past \<open>xs\<close> goes on with \<open>ys\<close>.\<close>

lemma runSteps_append_Ok:
  "runSteps i xs st = (Returns (Ok v), st') \<Longrightarrow>
   runSteps i (xs @ ys) st = runSteps (i + length xs) ys st'"
proof (induction xs arbitrary: i st)
  case Nil
  then show ?case by (simp add: ok_def)
next
  case (Cons s ss)
  then show ?case
    by (auto simp: err_def Let_def split: completion.splits bool.splits prod.splits Result.splits)
qed

lemma runSteps_Ok_summary_length:
  "runSteps i xs st = (Returns (Ok v), st') \<Longrightarrow>
   length (summary st') = length (summary st) + length xs"
proof (induction xs arbitrary: i st)
  case Nil
  then show ?case by (simp add: ok_def)
next
  case (Cons s ss)
  then show ?case
    by (fastforce simp: err_def Let_def push_entry_def
        split: completion.splits bool.splits prod.splits Result.splits)
qed

text \<open>The loop invokes only actions of the steps it is given, at their positions.\<close>

lemma runSteps_trace:
  "set (trace (snd (runSteps i xs st))) \<subseteq> set (trace st) \<union> ActionInvoked ` {i ..< i + length xs}"
proof (induction xs arbitrary: i st)
  case Nil
  then show ?case by simp
next
  case (Cons s ss)
  have step: "{Suc i ..< Suc i + length ss} \<subseteq> {i ..< i + length (s # ss)}" by auto
  show ?case
  proof (cases "gated_off s (ctx st)")
    case (Throws e)
    then show ?thesis by simp
  next
    case (Returns b)
    show ?thesis
    proof (cases b)
      case True
      with Returns Cons.IH [of "Suc i" "push_entry (step_id s) True st"] step
      show ?thesis by (auto simp: push_entry_def)
    next
      case False
      obtain out c' where act: "step_action s (ctx st) = (out, c')"
        by (cases "step_action s (ctx st)")
      show ?thesis
      proof (cases out)
        case (Throws e)
        with Returns False act show ?thesis by auto
      next
        case inner: (Returns r)
        show ?thesis
        proof (cases r)
          case (Err e)
          with Returns False act inner show ?thesis by (auto simp: push_entry_def)
        next
          case (Ok v)
          let ?st' = "push_entry (step_id s) True
                        (st\<lparr>ctx := c', trace := trace st @ [ActionInvoked i]\<rparr>)"
          from Ok Returns False act inner
          have eq: "runSteps i (s # ss) st = runSteps (Suc i) ss ?st'" by simp
          from Cons.IH [of "Suc i" ?st'] step
          show ?thesis unfolding eq by (auto simp: push_entry_def)
        qed
      qed
    qed
  qed
qed

lemma not_invoked:
  "A \<subseteq> B \<union> ActionInvoked ` S \<Longrightarrow> B \<subseteq> ActionInvoked ` T \<Longrightarrow> i \<notin> S \<Longrightarrow> i \<notin> T \<Longrightarrow>
   ActionInvoked i \<notin> A"
  by auto

lemma runPlan_trace_invocations: "list_all is_invocation (trace (snd (runPlan plan)))"
  using runSteps_trace [of 0 "plan_steps plan" initial_state]
  by (auto simp: runPlan_def initial_state_def list_all_iff)

lemma reaches_runPlan:
  assumes "reaches plan n st"
  shows "runPlan plan = runSteps n (drop n (plan_steps plan)) st"
proof -
  from assms have r: "runSteps 0 (take n (plan_steps plan)) initial_state =
      (Returns (Ok \<lparr>steps = summary st\<rparr>), st)" and n: "n \<le> length (plan_steps plan)"
    by (simp_all add: reaches_def ok_def)
  from runSteps_append_Ok [OF r, of "drop n (plan_steps plan)"] n
  show ?thesis by (simp add: runPlan_def)
qed

lemma reaches_summary_length:
  assumes "reaches plan n st"
  shows "length (summary st) = n"
proof -
  from assms have r: "runSteps 0 (take n (plan_steps plan)) initial_state =
      (Returns (Ok \<lparr>steps = summary st\<rparr>), st)" and n: "n \<le> length (plan_steps plan)"
    by (simp_all add: reaches_def ok_def)
  from runSteps_Ok_summary_length [OF r] n show ?thesis by (simp add: initial_state_def)
qed

lemma reaches_trace:
  assumes "reaches plan n st"
  shows "set (trace st) \<subseteq> ActionInvoked ` {0 ..< n}"
proof -
  from assms have r: "runSteps 0 (take n (plan_steps plan)) initial_state =
      (Returns (Ok \<lparr>steps = summary st\<rparr>), st)" and n: "n \<le> length (plan_steps plan)"
    by (simp_all add: reaches_def ok_def)
  from runSteps_trace [of 0 "take n (plan_steps plan)" initial_state] r n
  show ?thesis by (simp add: initial_state_def)
qed

lemma reaches_Suc:
  assumes "reaches plan n st" and "n < length (plan_steps plan)"
    and "runSteps n [plan_steps plan ! n] st = (Returns (Ok v), st')"
  shows "reaches plan (Suc n) st'"
proof -
  from assms(1) have r: "runSteps 0 (take n (plan_steps plan)) initial_state =
      (Returns (Ok \<lparr>steps = summary st\<rparr>), st)"
    by (simp_all add: reaches_def ok_def)
  have "take (Suc n) (plan_steps plan) = take n (plan_steps plan) @ [plan_steps plan ! n]"
    using assms(2) by (simp add: take_Suc_conv_app_nth)
  with runSteps_append_Ok [OF r, of "[plan_steps plan ! n]"] assms(2)
  have "runSteps 0 (take (Suc n) (plan_steps plan)) initial_state =
      runSteps n [plan_steps plan ! n] st"
    by simp
  moreover have "v = \<lparr>steps = summary st'\<rparr>"
    using assms(3)
    by (auto simp: ok_def err_def Let_def
        split: completion.splits bool.splits prod.splits Result.splits)
  ultimately show ?thesis using assms(2,3) by (simp add: reaches_def ok_def)
qed

lemma all_succeed_ConsD:
  assumes "all_succeed (s # ss) c"
  obtains v c' where "gated_off s c = Returns False"
    and "step_action s c = (Returns (Ok v), c')" and "all_succeed ss c'"
proof -
  obtain out c' where act: "step_action s c = (out, c')" by (cases "step_action s c")
  from assms act obtain r where out: "out = Returns r" by (cases out) auto
  from assms act out obtain v where "r = Ok v" by (cases r) auto
  with assms act out that show thesis by auto
qed

lemma runSteps_all_succeed:
  "all_succeed xs (ctx st) \<Longrightarrow>
   fst (runSteps i xs st) =
     Returns (Ok \<lparr>steps = summary st @ map (\<lambda>s. \<lparr>entry_id = step_id s, entry_ok = True\<rparr>) xs\<rparr>)"
proof (induction xs arbitrary: i st)
  case Nil
  then show ?case by (simp add: ok_def)
next
  case (Cons s ss)
  from Cons.prems obtain v c' where g: "gated_off s (ctx st) = Returns False"
    and a: "step_action s (ctx st) = (Returns (Ok v), c')" and rest: "all_succeed ss c'"
    by (rule all_succeed_ConsD)
  let ?st' = "push_entry (step_id s) True (st\<lparr>ctx := c', trace := trace st @ [ActionInvoked i]\<rparr>)"
  have "all_succeed ss (ctx ?st')" using rest by (simp add: push_entry_def)
  from Cons.IH [OF this, of "Suc i"] show ?case
    unfolding runSteps_action_ok [OF g a] by (simp add: push_entry_def)
qed

section \<open>The example plans, made\<close>

lemma plan_p_a_b_steps:
  "plan_steps plan_p_a_b =
     [\<lparr>step_id = ''p-s1'', step_name = ''a'', step_action = succeed, step_when = None\<rparr>,
      \<lparr>step_id = ''p-s2'', step_name = ''b'', step_action = succeed, step_when = None\<rparr>]"
  by (simp add: plan_p_a_b_def makePlan_def normalize_step_def enumerate_eq_zip asStepId_def
      string_of_nat.simps digit_char_def upt_rec)

lemma plan_fail_first_steps:
  "plan_steps plan_fail_first =
     [\<lparr>step_id = ''p-s1'', step_name = ''a'', step_action = fail_with (ErrorObj ''x''), step_when = None\<rparr>,
      \<lparr>step_id = ''p-s2'', step_name = ''b'', step_action = succeed, step_when = None\<rparr>]"
  by (simp add: plan_fail_first_def makePlan_def normalize_step_def enumerate_eq_zip asStepId_def
      string_of_nat.simps digit_char_def upt_rec)

lemma plan_fail_second_steps:
  "plan_steps plan_fail_second =
     [\<lparr>step_id = ''q-s1'', step_name = ''a'', step_action = set_var ''x'' (Bool True), step_when = None\<rparr>,
      \<lparr>step_id = ''mid'', step_name = ''b'', step_action = fail_with (ErrorObj ''x''),
         step_when = Some (has_var ''x'')\<rparr>,
      \<lparr>step_id = ''q-s3'', step_name = ''c'', step_action = succeed, step_when = None\<rparr>]"
  by (simp add: plan_fail_second_def makePlan_def normalize_step_def enumerate_eq_zip asStepId_def
      string_of_nat.simps digit_char_def upt_rec)

lemma plan_skip_first_steps:
  "plan_steps plan_skip_first =
     [\<lparr>step_id = ''p-s1'', step_name = ''a'', step_action = succeed, step_when = Some never\<rparr>,
      \<lparr>step_id = ''p-s2'', step_name = ''b'', step_action = succeed, step_when = None\<rparr>]"
  by (simp add: plan_skip_first_def makePlan_def normalize_step_def enumerate_eq_zip asStepId_def
      string_of_nat.simps digit_char_def upt_rec)

lemma plan_throw_steps:
  "plan_steps (plan_throw e) =
     [\<lparr>step_id = ''p-s1'', step_name = ''throw-nonerror'', step_action = throw_value e, step_when = None\<rparr>]"
  by (simp add: plan_throw_def makePlan_def normalize_step_def enumerate_eq_zip asStepId_def
      string_of_nat.simps digit_char_def upt_rec)

lemma runPlan_plan_p_a_b:
  "runPlan plan_p_a_b =
     (Returns (Ok \<lparr>steps = [\<lparr>entry_id = ''p-s1'', entry_ok = True\<rparr>,
                            \<lparr>entry_id = ''p-s2'', entry_ok = True\<rparr>]\<rparr>),
      \<lparr>ctx = \<lparr>vars = Map.empty\<rparr>,
       summary = [\<lparr>entry_id = ''p-s1'', entry_ok = True\<rparr>, \<lparr>entry_id = ''p-s2'', entry_ok = True\<rparr>],
       trace = [ActionInvoked 0, ActionInvoked 1]\<rparr>)"
  by (simp add: runPlan_def plan_p_a_b_steps initial_state_def gated_off_def succeed_def
      push_entry_def ok_def)

lemma runPlan_plan_fail_first:
  "runPlan plan_fail_first =
     (Returns (Err (Obj [(''message'', Str ''Step failed: a''), (''cause'', ErrorObj ''x'')])),
      \<lparr>ctx = \<lparr>vars = Map.empty\<rparr>,
       summary = [\<lparr>entry_id = ''p-s1'', entry_ok = False\<rparr>],
       trace = [ActionInvoked 0]\<rparr>)"
  by (simp add: runPlan_def plan_fail_first_steps initial_state_def gated_off_def fail_with_def
      push_entry_def err_def step_failed_def)

lemma runPlan_plan_throw:
  "runPlan (plan_throw e) =
     (Throws e, \<lparr>ctx = \<lparr>vars = Map.empty\<rparr>, summary = [], trace = [ActionInvoked 0]\<rparr>)"
  by (simp add: runPlan_def plan_throw_steps initial_state_def gated_off_def throw_value_def)

section \<open>Properties of the runner\<close>

text \<open>
  C1. Step k (1-indexed) is the first step whose action returns a failing Result: the loop
  gets past the k - 1 steps before it, step k is not gated off, and its action returns
  \<open>{ok: false, error: e}\<close>. Then \<open>runPlan\<close> resolves to a failure whose error has the
  message \<open>Step failed: {step.name}\<close> and the cause \<open>e\<close>; the summary holds exactly k
  entries, the last of them \<open>{id, ok: false}\<close>; and no action of the steps k+1..N
  (positions k and beyond, counted from 0) is invoked.
\<close>

theorem runPlan_first_failure:
  assumes "0 < k" and "k \<le> length (plan_steps plan)"
    and "reaches plan (k - 1) st"
    and "gated_off (plan_steps plan ! (k - 1)) (ctx st) = Returns False"
    and "step_action (plan_steps plan ! (k - 1)) (ctx st) = (Returns (Err e), c')"
  shows "fst (runPlan plan) =
           Returns (Err (Obj [(''message'', Str (''Step failed: '' @ step_name (plan_steps plan ! (k - 1)))),
                              (''cause'', e)])) \<and>
         length (summary (snd (runPlan plan))) = k \<and>
         last (summary (snd (runPlan plan))) =
           \<lparr>entry_id = step_id (plan_steps plan ! (k - 1)), entry_ok = False\<rparr> \<and>
         (\<forall>j. k \<le> j \<longrightarrow> ActionInvoked j \<notin> set (trace (snd (runPlan plan))))"
proof -
  let ?s = "plan_steps plan ! (k - 1)"
  let ?st' = "push_entry (step_id ?s) False
                (st\<lparr>ctx := c', trace := trace st @ [ActionInvoked (k - 1)]\<rparr>)"
  from assms(1,2) have "drop (k - 1) (plan_steps plan) = ?s # drop k (plan_steps plan)"
    by (metis Cons_nth_drop_Suc Suc_pred' less_eq_Suc_le)
  with reaches_runPlan [OF assms(3)]
  have "runPlan plan = runSteps (k - 1) (?s # drop k (plan_steps plan)) st" by simp
  with runSteps_action_fails [OF assms(4,5)]
  have run: "runPlan plan = (Returns (Err (step_failed ?s e)), ?st')" by simp
  have len: "length (summary ?st') = k"
    using reaches_summary_length [OF assms(3)] assms(1) by (simp add: push_entry_def)
  have tr: "set (trace ?st') \<subseteq> ActionInvoked ` {0 ..< k}"
    using reaches_trace [OF assms(3)] assms(1) by (auto simp: push_entry_def)
  from run len tr show ?thesis
    by (auto simp: step_failed_def push_entry_def)
qed

theorem runPlan_first_failure_witness:
  "reaches plan_fail_second (2 - 1) after_first \<and>
   gated_off (plan_steps plan_fail_second ! (2 - 1)) (ctx after_first) = Returns False \<and>
   step_action (plan_steps plan_fail_second ! (2 - 1)) (ctx after_first) =
     (Returns (Err (ErrorObj ''x'')), ctx after_first) \<and>
   fst (runPlan plan_fail_second) =
     Returns (Err (Obj [(''message'', Str ''Step failed: b''), (''cause'', ErrorObj ''x'')])) \<and>
   length (summary (snd (runPlan plan_fail_second))) = 2 \<and>
   last (summary (snd (runPlan plan_fail_second))) = \<lparr>entry_id = ''mid'', entry_ok = False\<rparr> \<and>
   ActionInvoked 2 \<notin> set (trace (snd (runPlan plan_fail_second)))"
proof -
  have k: "0 < (2::nat)" "2 \<le> length (plan_steps plan_fail_second)"
    by (simp_all add: plan_fail_second_steps)
  have r: "reaches plan_fail_second (2 - 1) after_first"
    by (simp add: reaches_def plan_fail_second_steps after_first_def initial_state_def
        gated_off_def set_var_def push_entry_def ok_def)
  have g: "gated_off (plan_steps plan_fail_second ! (2 - 1)) (ctx after_first) = Returns False"
    by (simp add: plan_fail_second_steps after_first_def gated_off_def has_var_def)
  have a: "step_action (plan_steps plan_fail_second ! (2 - 1)) (ctx after_first) =
      (Returns (Err (ErrorObj ''x'')), ctx after_first)"
    by (simp add: plan_fail_second_steps fail_with_def)
  from runPlan_first_failure [OF k r g a] r g a show ?thesis
    by (simp add: plan_fail_second_steps)
qed

text \<open>
  C2. A plan with N steps in which no step is gated off and no step's action returns a
  failing Result (every action returns a success Result): \<open>runPlan\<close> resolves to a success
  whose summary has one entry \<open>{id, ok: true}\<close> per step, in the order of \<open>Plan.steps\<close>.
\<close>

theorem runPlan_all_succeed:
  "all_succeed (plan_steps plan) \<lparr>vars = Map.empty\<rparr> \<Longrightarrow>
   fst (runPlan plan) =
     Returns (Ok \<lparr>steps = map (\<lambda>s. \<lparr>entry_id = step_id s, entry_ok = True\<rparr>) (plan_steps plan)\<rparr>)"
  using runSteps_all_succeed [of "plan_steps plan" initial_state 0]
  by (simp add: runPlan_def initial_state_def)

theorem runPlan_all_succeed_witness:
  "all_succeed (plan_steps plan_p_a_b) \<lparr>vars = Map.empty\<rparr> \<and>
   fst (runPlan plan_p_a_b) =
     Returns (Ok \<lparr>steps = [\<lparr>entry_id = ''p-s1'', entry_ok = True\<rparr>,
                            \<lparr>entry_id = ''p-s2'', entry_ok = True\<rparr>]\<rparr>)"
proof -
  have h: "all_succeed (plan_steps plan_p_a_b) \<lparr>vars = Map.empty\<rparr>"
    by (simp add: plan_p_a_b_steps gated_off_def succeed_def)
  from runPlan_all_succeed [OF h] h show ?thesis
    by (simp add: plan_p_a_b_steps)
qed

text \<open>
  C6. The loop has come to the step at position i, whose \<open>when\<close> predicate answers false in
  the current context. Then \<open>runPlan\<close> appends \<open>{id, ok: true}\<close> for that step and goes on
  to the next step with the context (and everything else) as it was; the step's action
  is not invoked in the run.
\<close>

theorem runPlan_skips_gated_step:
  assumes "reaches plan i st" and "i < length (plan_steps plan)"
    and "step_when (plan_steps plan ! i) = Some w" and "w (ctx st) = Returns False"
  shows "reaches plan (Suc i)
           (st\<lparr>summary := summary st @ [\<lparr>entry_id = step_id (plan_steps plan ! i), entry_ok = True\<rparr>]\<rparr>) \<and>
         runPlan plan =
           runSteps (Suc i) (drop (Suc i) (plan_steps plan))
             (st\<lparr>summary := summary st @ [\<lparr>entry_id = step_id (plan_steps plan ! i), entry_ok = True\<rparr>]\<rparr>) \<and>
         ActionInvoked i \<notin> set (trace (snd (runPlan plan)))"
proof -
  let ?s = "plan_steps plan ! i"
  let ?st' = "st\<lparr>summary := summary st @ [\<lparr>entry_id = step_id ?s, entry_ok = True\<rparr>]\<rparr>"
  have g: "gated_off ?s (ctx st) = Returns True"
    using assms(3,4) by (simp add: gated_off_def)
  have one: "runSteps i [?s] st = (Returns (Ok \<lparr>steps = summary ?st'\<rparr>), ?st')"
    using runSteps_skip [OF g, of i "[]"] by (simp add: push_entry_def ok_def)
  have next_state: "reaches plan (Suc i) ?st'"
    using reaches_Suc [OF assms(1,2) one] .
  have "set (trace (snd (runPlan plan))) \<subseteq>
      set (trace ?st') \<union> ActionInvoked ` {Suc i ..< Suc i + length (drop (Suc i) (plan_steps plan))}"
    unfolding reaches_runPlan [OF next_state] by (rule runSteps_trace)
  moreover have "set (trace ?st') \<subseteq> ActionInvoked ` {0 ..< i}"
    using reaches_trace [OF assms(1)] by simp
  ultimately have "ActionInvoked i \<notin> set (trace (snd (runPlan plan)))"
    by (rule not_invoked) simp_all
  with next_state reaches_runPlan [OF next_state] show ?thesis by simp
qed

theorem runPlan_skips_gated_step_witness:
  "reaches plan_skip_first 0 initial_state \<and>
   step_when (plan_steps plan_skip_first ! 0) = Some never \<and>
   never (ctx initial_state) = Returns False \<and>
   reaches plan_skip_first (Suc 0)
     (initial_state\<lparr>summary := [\<lparr>entry_id = ''p-s1'', entry_ok = True\<rparr>]\<rparr>) \<and>
   ActionInvoked 0 \<notin> set (trace (snd (runPlan plan_skip_first)))"
proof -
  have r: "reaches plan_skip_first 0 initial_state"
    by (simp add: reaches_def initial_state_def ok_def)
  have i: "0 < length (plan_steps plan_skip_first)"
    by (simp add: plan_skip_first_steps)
  have w: "step_when (plan_steps plan_skip_first ! 0) = Some never"
    by (simp add: plan_skip_first_steps)
  have f: "never (ctx initial_state) = Returns False"
    by (simp add: never_def)
  note skip = runPlan_skips_gated_step [OF r i w f]
  from skip [THEN conjunct1]
  have "reaches plan_skip_first (Suc 0)
      (initial_state\<lparr>summary := [\<lparr>entry_id = ''p-s1'', entry_ok = True\<rparr>]\<rparr>)"
    by (simp add: plan_skip_first_steps initial_state_def)
  with skip [THEN conjunct2, THEN conjunct2] r w f show ?thesis
    by simp
qed

section \<open>The orchestrator around the runner\<close>

lemma telemetry_info_normal:
  "returns_normally t \<Longrightarrow>
   telemetry_info \<lparr>telemetry = Some t\<rparr> msg (Returns attrs) w =
     (Returns (), \<lparr>tel = snd (info t msg attrs (tel w)), events = events w @ [TelemetryInfo msg attrs]\<rparr>)"
  by (simp add: telemetry_info_def returns_normally_def split_beta)

lemma telemetry_error_normal:
  "returns_normally t \<Longrightarrow>
   telemetry_error \<lparr>telemetry = Some t\<rparr> msg (Returns attrs) w =
     (Returns (), \<lparr>tel = snd (error t msg attrs (tel w)), events = events w @ [TelemetryError msg attrs]\<rparr>)"
  by (simp add: telemetry_error_def returns_normally_def split_beta)

lemma telemetry_error_args_throw:
  "telemetry_error \<lparr>telemetry = Some t\<rparr> msg (Throws x) w = (Throws x, w)"
  by (simp add: telemetry_error_def)

text \<open>The catch block, with a telemetry object that never throws.\<close>

lemma run_catch_normal:
  assumes "returns_normally t"
  shows "run_catch \<lparr>telemetry = Some t\<rparr> e w =
     (case message_or_string e of
        Throws x \<Rightarrow> (Throws x, w)
      | Returns m \<Rightarrow>
          (Returns (Err e),
           \<lparr>tel = snd (error t ''orchestrator.run.exception'' [(''error'', Value m)] (tel w)),
            events = events w @ [TelemetryError ''orchestrator.run.exception'' [(''error'', Value m)]]\<rparr>))"
  by (simp add: run_catch_def exception_attrs_def telemetry_error_normal [OF assms]
      telemetry_error_args_throw err_def split: completion.splits)

text \<open>Without telemetry, \<open>run\<close> is the runner with a rejection turned into a failure.\<close>

lemma run_without_telemetry:
  "run \<lparr>telemetry = None\<rparr> plan t0 =
     (Returns (case fst (runPlan plan) of Returns r \<Rightarrow> r | Throws e \<Rightarrow> Err e),
      \<lparr>tel = t0, events = trace (snd (runPlan plan))\<rparr>)"
  by (simp add: run_def run_catch_def telemetry_info_def telemetry_error_def ok_def err_def Let_def
      split: prod.splits completion.splits Result.splits)

text \<open>
  With a telemetry object that never throws: the runner's Result between two events, or,
  when the runner threw, what the catch block makes of it.
\<close>

lemma run_normal_telemetry:
  assumes "returns_normally t"
  shows "fst (run \<lparr>telemetry = Some t\<rparr> plan t0) =
           (case fst (runPlan plan) of
              Returns r \<Rightarrow> Returns r
            | Throws e \<Rightarrow>
                (case message_or_string e of Returns m \<Rightarrow> Returns (Err e) | Throws x \<Rightarrow> Throws x))"
    and "events (snd (run \<lparr>telemetry = Some t\<rparr> plan t0)) =
           start_event plan # trace (snd (runPlan plan)) @ closing_events (fst (runPlan plan))"
  by (simp_all add: run_def run_catch_normal [OF assms] telemetry_info_normal [OF assms]
      telemetry_error_normal [OF assms] ok_def start_event_def Let_def
      split: prod.splits completion.splits Result.splits)


lemma message_or_string_Str: "message_or_string (Str s) = Returns (Str s)"
  by (simp add: message_or_string_def)


lemma closing_events_closing: "list_all is_closing (closing_events out)"
proof (cases out)
  case (Returns r)
  then show ?thesis by (cases r) simp_all
next
  case (Throws e)
  then show ?thesis by (cases "message_or_string e") simp_all
qed

lemma closing_events_one:
  assumes "case out of Returns r \<Rightarrow> True | Throws e \<Rightarrow> is_returns (message_or_string e)"
  shows "length (closing_events out) = 1"
proof (cases out)
  case (Returns r)
  then show ?thesis by (cases r) simp_all
next
  case (Throws e)
  with assms show ?thesis by (cases "message_or_string e") simp_all
qed

lemma invocations_not_closing: "list_all is_invocation evs \<Longrightarrow> filter is_closing evs = []"
proof (induction evs)
  case Nil
  then show ?case by simp
next
  case (Cons ev evs)
  then show ?case by (cases ev) simp_all
qed

lemma filter_all: "list_all P xs \<Longrightarrow> filter P xs = xs"
  by (induction xs) simp_all

lemma returns_normally_NoopTelemetry: "returns_normally NoopTelemetry"
  by (simp add: returns_normally_def NoopTelemetry_def)

lemma returns_normally_TelemetryMock: "returns_normally TelemetryMock"
  by (simp add: returns_normally_def TelemetryMock_def)

lemma telemetry_info_faulty:
  "telemetry_info \<lparr>telemetry = Some (FaultyTelemetry a b)\<rparr> msg (Returns attrs) w =
     (if a then Throws (ErrorObj ''telemetry down'') else Returns (),
      \<lparr>tel = (), events = events w @ [TelemetryInfo msg attrs]\<rparr>)"
  by (simp add: telemetry_info_def FaultyTelemetry_def)

lemma telemetry_error_faulty:
  "telemetry_error \<lparr>telemetry = Some (FaultyTelemetry a b)\<rparr> msg (Returns attrs) w =
     (if b then Throws (ErrorObj ''telemetry down'') else Returns (),
      \<lparr>tel = (), events = events w @ [TelemetryError msg attrs]\<rparr>)"
  by (simp add: telemetry_error_def FaultyTelemetry_def)

lemma exception_attrs_telemetry_down:
  "exception_attrs (ErrorObj ''telemetry down'') = Returns [(''error'', Value (Str ''telemetry down''))]"
  by (simp add: exception_attrs_def message_or_string_def)

lemma message_or_string_unconvertible:
  "message_or_string (Obj [(''toString'', Null)]) = Throws cannot_convert"
  by (simp add: message_or_string_def own_property_def)

section \<open>Properties of the orchestrator\<close>







text \<open>
  C5, as the code has it. When the runner resolves to a Result \<open>r\<close>, an orchestrator with
  no telemetry, or with a telemetry object whose \<open>info\<close> and \<open>error\<close> return normally,
  resolves to \<open>r\<close>: a failure is returned unwrapped, a success with the same value.
\<close>

theorem run_returns_runner_result:
  "returns_normally t \<Longrightarrow> fst (runPlan plan) = Returns r \<Longrightarrow>
   fst (run \<lparr>telemetry = Some t\<rparr> plan t0) = Returns r \<and>
   fst (run \<lparr>telemetry = None\<rparr> plan t0) = Returns r"
  by (simp add: run_normal_telemetry(1) run_without_telemetry)

theorem run_returns_runner_result_witness:
  "returns_normally (NoopTelemetry :: unit Telemetry) \<and>
   fst (runPlan plan_fail_first) =
     Returns (Err (Obj [(''message'', Str ''Step failed: a''), (''cause'', ErrorObj ''x'')])) \<and>
   fst (run \<lparr>telemetry = Some NoopTelemetry\<rparr> plan_fail_first ()) =
     Returns (Err (Obj [(''message'', Str ''Step failed: a''), (''cause'', ErrorObj ''x'')])) \<and>
   fst (run \<lparr>telemetry = None\<rparr> plan_fail_first ()) =
     Returns (Err (Obj [(''message'', Str ''Step failed: a''), (''cause'', ErrorObj ''x'')]))"
proof -
  have noop: "returns_normally (NoopTelemetry :: unit Telemetry)"
    by (rule returns_normally_NoopTelemetry)
  have r: "fst (runPlan plan_fail_first) =
      Returns (Err (Obj [(''message'', Str ''Step failed: a''), (''cause'', ErrorObj ''x'')]))"
    by (simp add: runPlan_plan_fail_first)
  from run_returns_runner_result [OF noop r, of "()"] noop r show ?thesis by simp
qed

text \<open>
  C5, as stated, fails: the runner succeeds on the plan \<open>p\<close> with steps \<open>a\<close>, \<open>b\<close>, and an
  orchestrator whose telemetry's \<open>info\<close> throws returns a failure.
\<close>

theorem run_turns_success_into_failure:
  "fst (runPlan plan_p_a_b) =
     Returns (Ok \<lparr>steps = [\<lparr>entry_id = ''p-s1'', entry_ok = True\<rparr>,
                            \<lparr>entry_id = ''p-s2'', entry_ok = True\<rparr>]\<rparr>) \<and>
   fst (run \<lparr>telemetry = Some (FaultyTelemetry True False)\<rparr> plan_p_a_b ()) =
     Returns (Err (ErrorObj ''telemetry down''))"
  by (simp add: run_def run_catch_def telemetry_info_faulty telemetry_error_faulty
      runPlan_plan_p_a_b err_def exception_attrs_telemetry_down)

text \<open>
  C8, as the code has it. Take a telemetry object whose \<open>info\<close> and \<open>error\<close> return
  normally, and a plan for which the attributes of the exception event can be evaluated
  (if a step throws \<open>e\<close>, then \<open>e?.message || String(e)\<close> does not throw). The events of
  the run are then: \<open>orchestrator.run.start\<close>, then the invocations of the runner and
  nothing else, then one closing event (\<open>orchestrator.run.ok\<close>, \<open>orchestrator.run.error\<close> or
  \<open>orchestrator.run.exception\<close>, by how the runner ended), after which \<open>run\<close> settles. It
  is the only closing event of the run.
\<close>

theorem run_events_in_order:
  assumes "returns_normally t" and "exception_message_evaluates plan"
  shows "events (snd (run \<lparr>telemetry = Some t\<rparr> plan t0)) =
           start_event plan # trace (snd (runPlan plan)) @ closing_events (fst (runPlan plan)) \<and>
         list_all is_invocation (trace (snd (runPlan plan))) \<and>
         length (closing_events (fst (runPlan plan))) = 1 \<and>
         list_all is_closing (closing_events (fst (runPlan plan))) \<and>
         filter is_closing (events (snd (run \<lparr>telemetry = Some t\<rparr> plan t0))) =
           closing_events (fst (runPlan plan))"
proof -
  have one: "length (closing_events (fst (runPlan plan))) = 1"
    using assms(2) unfolding exception_message_evaluates_def by (rule closing_events_one)
  from runPlan_trace_invocations [of plan] one show ?thesis
    by (simp add: run_normal_telemetry(2) [OF assms(1)] invocations_not_closing
        closing_events_closing filter_all start_event_def)
qed

theorem run_events_in_order_witness:
  "returns_normally TelemetryMock \<and>
   exception_message_evaluates (plan_throw (Str ''boom'')) \<and>
   events (snd (run \<lparr>telemetry = Some TelemetryMock\<rparr> (plan_throw (Str ''boom'')) no_calls)) =
     [TelemetryInfo ''orchestrator.run.start''
        [(''planId'', Value (Str ''p'')), (''name'', Value (Str ''p''))],
      ActionInvoked 0,
      TelemetryError ''orchestrator.run.exception'' [(''error'', Value (Str ''boom''))]] \<and>
   filter is_closing
     (events (snd (run \<lparr>telemetry = Some TelemetryMock\<rparr> (plan_throw (Str ''boom'')) no_calls))) =
     [TelemetryError ''orchestrator.run.exception'' [(''error'', Value (Str ''boom''))]]"
proof -
  have ids: "plan_id (plan_throw (Str ''boom'')) = ''p''" "plan_name (plan_throw (Str ''boom'')) = ''p''"
    by (simp_all add: plan_throw_def makePlan_def asPlanId_def)
  have ev: "exception_message_evaluates (plan_throw (Str ''boom''))"
    by (simp add: exception_message_evaluates_def runPlan_plan_throw message_or_string_Str)
  note th = run_events_in_order [OF returns_normally_TelemetryMock ev, of no_calls]
  from th [THEN conjunct1] th [THEN conjunct2, THEN conjunct2, THEN conjunct2, THEN conjunct2]
    returns_normally_TelemetryMock ev ids
  show ?thesis by (simp add: runPlan_plan_throw start_event_def message_or_string_Str)
qed

text \<open>
  C8, as stated, fails. With a telemetry object whose \<open>error\<close> throws and a plan whose
  first step fails, \<open>orchestrator.run.error\<close> and \<open>orchestrator.run.exception\<close> are both
  emitted, and \<open>run\<close> rejects. With the telemetry mock and a step that throws an object
  whose \<open>toString\<close> is not callable, no closing event is emitted, and \<open>run\<close> rejects.
\<close>

theorem run_emits_two_closing_events:
  "events (snd (run \<lparr>telemetry = Some (FaultyTelemetry False True)\<rparr> plan_fail_first ())) =
     [TelemetryInfo ''orchestrator.run.start''
        [(''planId'', Value (Str ''p'')), (''name'', Value (Str ''p''))],
      ActionInvoked 0,
      TelemetryError ''orchestrator.run.error''
        [(''error'', Value (Obj [(''message'', Str ''Step failed: a''), (''cause'', ErrorObj ''x'')]))],
      TelemetryError ''orchestrator.run.exception'' [(''error'', Value (Str ''telemetry down''))]] \<and>
   length (filter is_closing
     (events (snd (run \<lparr>telemetry = Some (FaultyTelemetry False True)\<rparr> plan_fail_first ())))) = 2 \<and>
   fst (run \<lparr>telemetry = Some (FaultyTelemetry False True)\<rparr> plan_fail_first ()) =
     Throws (ErrorObj ''telemetry down'') \<and>
   filter is_closing
     (events (snd (run \<lparr>telemetry = Some TelemetryMock\<rparr> (plan_throw (Obj [(''toString'', Null)])) no_calls))) = [] \<and>
   fst (run \<lparr>telemetry = Some TelemetryMock\<rparr> (plan_throw (Obj [(''toString'', Null)])) no_calls) =
     Throws cannot_convert"
proof -
  have ids: "plan_id plan_fail_first = ''p''" "plan_name plan_fail_first = ''p''"
    by (simp_all add: plan_fail_first_def makePlan_def asPlanId_def)
  have "run \<lparr>telemetry = Some (FaultyTelemetry False True)\<rparr> plan_fail_first () =
    (Throws (ErrorObj ''telemetry down''),
     \<lparr>tel = (), events =
       [TelemetryInfo ''orchestrator.run.start''
          [(''planId'', Value (Str ''p'')), (''name'', Value (Str ''p''))],
        ActionInvoked 0,
        TelemetryError ''orchestrator.run.error''
          [(''error'', Value (Obj [(''message'', Str ''Step failed: a''), (''cause'', ErrorObj ''x'')]))],
        TelemetryError ''orchestrator.run.exception'' [(''error'', Value (Str ''telemetry down''))]]\<rparr>)"
    by (simp add: run_def run_catch_def telemetry_info_faulty telemetry_error_faulty
        runPlan_plan_fail_first ids exception_attrs_telemetry_down)
  with run_normal_telemetry [OF returns_normally_TelemetryMock,
      of "plan_throw (Obj [(''toString'', Null)])" no_calls]
  show ?thesis
    by (simp add: runPlan_plan_throw message_or_string_unconvertible start_event_def)
qed

text \<open>
  C9. An orchestrator constructed with no telemetry: for every plan, \<open>run\<close> resolves to a
  Result, the runner's own, or a failure wrapping whatever a step action or a gating
  predicate threw. It never rejects.
\<close>

theorem run_without_telemetry_resolves:
  "fst (run \<lparr>telemetry = None\<rparr> plan t0) =
     Returns (case fst (runPlan plan) of Returns r \<Rightarrow> r | Throws e \<Rightarrow> Err e) \<and>
   (\<forall>e. fst (run \<lparr>telemetry = None\<rparr> plan t0) \<noteq> Throws e)"
  by (simp add: run_without_telemetry)

theorem run_without_telemetry_resolves_witness:
  "fst (run \<lparr>telemetry = None\<rparr> (plan_throw (Str ''boom'')) ()) = Returns (Err (Str ''boom''))"
  using run_without_telemetry_resolves [of "plan_throw (Str ''boom'')" "()"]
  by (simp add: runPlan_plan_throw)

end
